theory Spec2Isabelle
  imports Main "HOL-Library.Word"
begin

unbundle bit_operations_syntax

section \<open>Bytes and the host's integer encoding\<close>

text \<open>
  The address class of \<^verbatim>\<open>src/src/util.cpp\<close> keeps one member, \<^verbatim>\<open>store\<close>, and reads and
  writes it through the OS endpoint structs (\<^verbatim>\<open>store.sa\<close>, \<^verbatim>\<open>store.in\<close>, \<^verbatim>\<open>store.in6\<close>)
  and through \<^verbatim>\<open>memset\<close> and \<^verbatim>\<open>memcpy\<close>. The model is therefore the memory itself: a list
  of bytes. A field access is a read or write of the field's bytes at its offset.
\<close>

type_synonym byte = "8 word"

definition read_bytes :: "byte list \<Rightarrow> nat \<Rightarrow> nat \<Rightarrow> byte list" where
  "read_bytes m off n = take n (drop off m)"

definition write_bytes :: "byte list \<Rightarrow> nat \<Rightarrow> byte list \<Rightarrow> byte list" where
  "write_bytes m off bs = take off m @ bs @ drop (off + length bs) m"

text \<open>\<^verbatim>\<open>memset(dst, c, n)\<close> over an object of exactly \<open>n\<close> bytes, and \<^verbatim>\<open>memcpy(dst, src, n)\<close>
  to the start of \<open>dst\<close>. In C, \<^verbatim>\<open>memcpy\<close> from a source shorter than \<open>n\<close> bytes is
  undefined; here it copies the bytes the source has.\<close>

definition memset :: "byte \<Rightarrow> nat \<Rightarrow> byte list" where
  "memset c n = replicate n c"

definition memcpy :: "byte list \<Rightarrow> byte list \<Rightarrow> nat \<Rightarrow> byte list" where
  "memcpy dst src n = write_bytes dst 0 (take n src)"

text \<open>Integers in memory, in the byte order of a little-endian host (least significant
  byte first).\<close>

definition le_word :: "byte list \<Rightarrow> 'a::len word" where
  "le_word bs = word_of_int (horner_sum uint (2 ^ 8) bs)"

definition le_bytes16 :: "16 word \<Rightarrow> byte list" where
  "le_bytes16 v = [ucast v, ucast (drop_bit 8 v)]"

definition le_bytes32 :: "32 word \<Rightarrow> byte list" where
  "le_bytes32 v = [ucast v, ucast (drop_bit 8 v), ucast (drop_bit 16 v), ucast (drop_bit 24 v)]"

text \<open>\<^verbatim>\<open>htons\<close>, \<^verbatim>\<open>ntohs\<close> and \<^verbatim>\<open>htonl\<close> on a little-endian host: they reverse the bytes.\<close>

definition htons :: "16 word \<Rightarrow> 16 word" where
  "htons v = word_cat (ucast v :: byte) (ucast (drop_bit 8 v) :: byte)"

definition ntohs :: "16 word \<Rightarrow> 16 word" where
  "ntohs v = word_cat (ucast v :: byte) (ucast (drop_bit 8 v) :: byte)"

definition htonl :: "32 word \<Rightarrow> 32 word" where
  "htonl v = le_word (rev (le_bytes32 v))"

section \<open>Constants of the OS headers\<close>

text \<open>
  The family numbers, struct sizes and field offsets come from the system headers, not
  from the repository. They are fixed here to the Linux ABI: \<^verbatim>\<open>sa_family_t\<close> is an
  unsigned 16-bit integer at offset 0; \<^verbatim>\<open>sockaddr_in\<close> is family, port (offset 2), address
  (offset 4) and padding, 16 bytes; \<^verbatim>\<open>sockaddr_in6\<close> is family, port (offset 2), flow
  information, address (offset 8, 16 bytes) and scope, 28 bytes.
\<close>

definition AF_UNSPEC :: int where "AF_UNSPEC = 0"
definition AF_INET :: int where "AF_INET = 2"
definition AF_INET6 :: int where "AF_INET6 = 10"

definition sizeof_sockaddr_in :: nat where "sizeof_sockaddr_in = 16"
definition sizeof_sockaddr_in6 :: nat where "sizeof_sockaddr_in6 = 28"

definition INADDR_ANY :: "32 word" where "INADDR_ANY = 0"
definition INADDR_LOOPBACK :: "32 word" where "INADDR_LOOPBACK = 0x7f000001"

definition IN6ADDR_ANY_INIT :: "byte list" where
  "IN6ADDR_ANY_INIT = replicate 16 0"
definition IN6ADDR_LOOPBACK_INIT :: "byte list" where
  "IN6ADDR_LOOPBACK_INIT = replicate 15 0 @ [1]"

text \<open>The macros \<^verbatim>\<open>IN6_IS_ADDR_UNSPECIFIED\<close> and \<^verbatim>\<open>IN6_IS_ADDR_LOOPBACK\<close> compare the sixteen
  address bytes with \<^verbatim>\<open>::\<close> and \<^verbatim>\<open>::1\<close>.\<close>

definition IN6_IS_ADDR_UNSPECIFIED :: "byte list \<Rightarrow> bool" where
  "IN6_IS_ADDR_UNSPECIFIED bs = (bs = replicate 16 0)"
definition IN6_IS_ADDR_LOOPBACK :: "byte list \<Rightarrow> bool" where
  "IN6_IS_ADDR_LOOPBACK bs = (bs = replicate 15 0 @ [1])"

section \<open>The address class \<^verbatim>\<open>SockAddr\<close>\<close>

text \<open>
  Modelled from the spec: the declaration of the member \<^verbatim>\<open>store\<close> is in a header that is
  not among the sources. The spec's data model (family tag followed by the family-specific
  fields, in the OS's native layout) and the uses \<^verbatim>\<open>store.sa\<close>, \<^verbatim>\<open>store.in\<close> and
  \<^verbatim>\<open>store.in6\<close> make it the union of \<^verbatim>\<open>sockaddr\<close>, \<^verbatim>\<open>sockaddr_in\<close> and \<^verbatim>\<open>sockaddr_in6\<close>: its
  size is the largest member's.
\<close>

definition sizeof_store :: nat where "sizeof_store = 28"

type_synonym SockAddr = "byte list"

text \<open>The exceptions of the source, named as the spec names them:
  \<^verbatim>\<open>invalid_argument("Unsupported address family")\<close>, \<^verbatim>\<open>invalid_argument("Truncated Address")\<close>,
  \<^verbatim>\<open>logic_error("SockAddr: set family before port")\<close> and
  \<^verbatim>\<open>runtime_error("Unable to parse as IP addresss: ...")\<close>.\<close>

datatype error = InvalidAddressFamily | TruncatedAddress | FamilyNotSet | AddressParseError

text \<open>\<^verbatim>\<open>store.sa.sa_family\<close>, promoted to \<^verbatim>\<open>int\<close> as the \<^verbatim>\<open>switch\<close> statements do.\<close>

definition sa_family :: "SockAddr \<Rightarrow> int" where
  "sa_family a = uint (le_word (read_bytes a 0 2) :: 16 word)"

text \<open>\<^verbatim>\<open>SockAddr::SockAddr(int af)\<close>: the store is zeroed and tagged (the \<^verbatim>\<open>int\<close> is
  converted to the 16-bit field) before the family is checked; a throwing constructor
  leaves no object.\<close>

definition SockAddr_af :: "int \<Rightarrow> error + SockAddr" where
  "SockAddr_af af =
     (let store = memset 0 sizeof_store;
          store = write_bytes store 0 (le_bytes16 (word_of_int af))
      in if af \<noteq> AF_INET \<and> af \<noteq> AF_INET6 \<and> af \<noteq> AF_UNSPEC
         then Inl InvalidAddressFamily
         else Inr store)"

text \<open>\<^verbatim>\<open>SockAddr::size\<close>.\<close>

definition size_of :: "SockAddr \<Rightarrow> nat" where
  "size_of a =
     (if sa_family a = AF_INET then sizeof_sockaddr_in
      else if sa_family a = AF_INET6 then sizeof_sockaddr_in6
      else sizeof_store)"

text \<open>\<^verbatim>\<open>SockAddr::SockAddr(const sockaddr *addr, ev_socklen_t len)\<close>. \<open>addr\<close> is the memory the
  pointer refers to; \<open>len\<close> is an \<open>int\<close>, which covers the signed and the unsigned
  \<^verbatim>\<open>ev_socklen_t\<close>.\<close>

definition SockAddr_raw :: "byte list \<Rightarrow> int \<Rightarrow> error + SockAddr" where
  "SockAddr_raw addr len =
     (case SockAddr_af (sa_family addr) of
        Inl e \<Rightarrow> Inl e
      | Inr this \<Rightarrow>
          if len < 0 \<or> len > int (size_of this) then Inl TruncatedAddress
          else Inr (memcpy this addr (nat len)))"

text \<open>\<^verbatim>\<open>SockAddr::port\<close>.\<close>

definition port :: "SockAddr \<Rightarrow> 16 word" where
  "port a =
     (if sa_family a = AF_INET then ntohs (le_word (read_bytes a 2 2))
      else if sa_family a = AF_INET6 then ntohs (le_word (read_bytes a 2 2))
      else 0)"

text \<open>\<^verbatim>\<open>SockAddr::setPort\<close>. A method that changes the object returns its outcome and the
  object after the call; the exception is thrown before anything is written.\<close>

definition setPort :: "16 word \<Rightarrow> SockAddr \<Rightarrow> (error + unit) \<times> SockAddr" where
  "setPort p a =
     (if sa_family a = AF_INET then (Inr (), write_bytes a 2 (le_bytes16 (htons p)))
      else if sa_family a = AF_INET6 then (Inr (), write_bytes a 2 (le_bytes16 (htons p)))
      else (Inl FamilyNotSet, a))"

text \<open>\<^verbatim>\<open>SockAddr::setAddress\<close>. The parser \<^verbatim>\<open>evutil_parse_sockaddr_port\<close> belongs to an external
  library and is a parameter: given the string, the output buffer and its length, it
  returns its return code (0 for success) and the buffer after the call. The local
  \<^verbatim>\<open>temp\<close> is default-constructed (family \<^verbatim>\<open>AF_UNSPEC\<close>, which cannot throw); \<^verbatim>\<open>*this\<close> is
  assigned last.\<close>

type_synonym parser = "string \<Rightarrow> byte list \<Rightarrow> int \<Rightarrow> int \<times> byte list"

definition SockAddr_default :: SockAddr where
  "SockAddr_default = write_bytes (memset 0 sizeof_store) 0 (le_bytes16 (word_of_int AF_UNSPEC))"

definition setAddress :: "parser \<Rightarrow> string \<Rightarrow> 16 word \<Rightarrow> SockAddr \<Rightarrow> (error + unit) \<times> SockAddr" where
  "setAddress evutil_parse_sockaddr_port name p this =
     (let temp = SockAddr_default;
          templen = int sizeof_store
      in case evutil_parse_sockaddr_port name temp templen of
           (rc, temp) \<Rightarrow>
             if rc \<noteq> 0 then (Inl AddressParseError, this)
             else if port temp = 0 then
               (case setPort p temp of
                  (Inl e, _) \<Rightarrow> (Inl e, this)
                | (Inr _, temp) \<Rightarrow> (Inr (), temp))
             else (Inr (), temp))"

text \<open>\<^verbatim>\<open>SockAddr::isAny\<close> and \<^verbatim>\<open>SockAddr::isLO\<close>.\<close>

definition isAny :: "SockAddr \<Rightarrow> bool" where
  "isAny a =
     (if sa_family a = AF_INET then (le_word (read_bytes a 4 4) :: 32 word) = htonl INADDR_ANY
      else if sa_family a = AF_INET6 then IN6_IS_ADDR_UNSPECIFIED (read_bytes a 8 16)
      else False)"

definition isLO :: "SockAddr \<Rightarrow> bool" where
  "isLO a =
     (if sa_family a = AF_INET then (le_word (read_bytes a 4 4) :: 32 word) = htonl INADDR_LOOPBACK
      else if sa_family a = AF_INET6 then IN6_IS_ADDR_LOOPBACK (read_bytes a 8 16)
      else False)"

text \<open>\<^verbatim>\<open>SockAddr::any\<close> and \<^verbatim>\<open>SockAddr::loopback\<close>. The port parameter is an \<^verbatim>\<open>unsigned\<close>;
  \<^verbatim>\<open>htons\<close> takes its low 16 bits.\<close>

definition any :: "int \<Rightarrow> 32 word \<Rightarrow> error + SockAddr" where
  "any af p =
     (case SockAddr_af af of
        Inl e \<Rightarrow> Inl e
      | Inr ret \<Rightarrow>
          if af = AF_INET then
            Inr (write_bytes (write_bytes ret 4 (le_bytes32 (htonl INADDR_ANY)))
                   2 (le_bytes16 (htons (ucast p))))
          else if af = AF_INET6 then
            Inr (write_bytes (write_bytes ret 8 IN6ADDR_ANY_INIT)
                   2 (le_bytes16 (htons (ucast p))))
          else Inl InvalidAddressFamily)"

definition loopback :: "int \<Rightarrow> 32 word \<Rightarrow> error + SockAddr" where
  "loopback af p =
     (case SockAddr_af af of
        Inl e \<Rightarrow> Inl e
      | Inr ret \<Rightarrow>
          if af = AF_INET then
            Inr (write_bytes (write_bytes ret 4 (le_bytes32 (htonl INADDR_LOOPBACK)))
                   2 (le_bytes16 (htons (ucast p))))
          else if af = AF_INET6 then
            Inr (write_bytes (write_bytes ret 8 IN6ADDR_LOOPBACK_INIT)
                   2 (le_bytes16 (htons (ucast p))))
          else Inl InvalidAddressFamily)"

section \<open>Example inputs\<close>

text \<open>A raw IPv4 endpoint as the OS hands it over: family \<^verbatim>\<open>AF_INET\<close>, port 5076 in network
  byte order, host 10.0.0.5, eight bytes of padding.\<close>

definition example_sockaddr_in :: "byte list" where
  "example_sockaddr_in = [2, 0, 0x13, 0xD4, 10, 0, 0, 5, 0, 0, 0, 0, 0, 0, 0, 0]"

text \<open>An IPv4 address object: the same endpoint in the full store.\<close>

definition example_in :: SockAddr where
  "example_in = [2, 0, 0x13, 0xD4, 10, 0, 0, 5] @ replicate 20 0"

text \<open>The same IPv4 endpoint, 10.0.0.5 port 5076, in a store whose padding bytes are not zero,
  as the raw constructor builds it from a buffer the OS has not cleared: another byte
  string, the same Address.\<close>

definition example_in_padded :: SockAddr where
  "example_in_padded =
     [2, 0, 0x13, 0xD4, 10, 0, 0, 5, 0xFF, 0xFF, 0, 0, 0, 0, 0, 0] @ replicate 12 0"

text \<open>A stand-in for the external parser, to run \<^verbatim>\<open>setAddress\<close> on concrete strings. It
  handles the two strings of the spec's examples: it writes an IPv4 endpoint whose port
  field is 0 when the string has no port, and the written port otherwise; it rejects
  every other string.\<close>

definition example_parser :: parser where
  "example_parser name buf buflen =
     (if name = ''10.0.0.5'' then
        (0, write_bytes (memset 0 (nat buflen)) 0 [2, 0, 0, 0, 10, 0, 0, 5, 0, 0, 0, 0, 0, 0, 0, 0])
      else if name = ''10.0.0.5:9000'' then
        (0, write_bytes (memset 0 (nat buflen)) 0 [2, 0, 0x23, 0x28, 10, 0, 0, 5, 0, 0, 0, 0, 0, 0, 0, 0])
      else (- 1, buf))"

section \<open>The UDP manager\<close>

text \<open>Modelled from the spec: the comparison of addresses is declared in a header that is not
  among the sources. "Two Addresses are equal iff family, host bytes, and port are all
  equal; used as the exact key type for the Manager's registry - no normalization beyond
  family+bytes+port comparison". The host bytes are the 4 address bytes of an IPv4
  endpoint and the 16 of an IPv6 endpoint; an Unspecified address has none. Two stores
  with the same key are the same Address, whatever their other bytes hold.\<close>

definition host_bytes :: "SockAddr \<Rightarrow> byte list" where
  "host_bytes a =
     (if sa_family a = AF_INET then read_bytes a 4 4
      else if sa_family a = AF_INET6 then read_bytes a 8 16
      else [])"

definition address_key :: "SockAddr \<Rightarrow> int \<times> byte list \<times> 16 word" where
  "address_key a = (sa_family a, host_bytes a, port a)"

text \<open>Modelled from the spec: the UDP manager (\<^verbatim>\<open>UDPManager\<close>; the sources hold only the call of
  its \<^verbatim>\<open>cleanup\<close>). A Socket Entry is "one OS UDP socket bound to exactly one local Address,
  plus its current listener set and reference count"; its attributes are the "bound local
  Address (key), underlying OS socket descriptor, ordered collection of registered listener
  callbacks, live reference count". A callback is named by the number of its handle.\<close>

record socket_entry =
  local_address :: SockAddr
  descriptor :: nat
  listeners :: "nat list"
  refcount :: nat

text \<open>Modelled from the spec: the key of an entry is its bound local Address.\<close>

definition entry_key :: "socket_entry \<Rightarrow> int \<times> byte list \<times> 16 word" where
  "entry_key e = address_key (local_address e)"

text \<open>Modelled from the spec: the manager's state is the registry, "a mapping from Address to
  Socket Entry", kept as the list of its entries so that the uniqueness of the keys is
  a property to prove and not one of the type. The sockets the OS holds open, each with
  the address it is bound to, and the number of binds the OS has performed are the part of
  the OS the manager acts on; the two counters supply fresh descriptors and handles.\<close>

record manager =
  registry :: "socket_entry list"
  os_sockets :: "(nat \<times> SockAddr) list"
  binds :: nat
  next_descriptor :: nat
  next_listener :: nat

text \<open>Modelled from the spec: \<open>BindError\<close> when "the OS refuses the bind"; the release of "an
  already-released handle is a programming error, signaled rather than silently ignored".
  A listener handle is "an opaque capability returned to a caller on subscribe": the
  address of its entry and the number of its callback.\<close>

datatype udp_error = BindError | ReleasedHandle

type_synonym listener_handle = "SockAddr \<times> nat"

text \<open>Modelled from the spec: the manager before any subscribe, every entry \<open>Absent\<close>.\<close>

definition manager_init :: manager where
  "manager_init =
     \<lparr>registry = [], os_sockets = [], binds = 0, next_descriptor = 0, next_listener = 0\<rparr>"

text \<open>Modelled from the spec: the registry maps a local Address to "at most one Socket
  Entry"; a lookup returns the first entry whose Address equals the given one.\<close>

definition lookup :: "manager \<Rightarrow> SockAddr \<Rightarrow> socket_entry option" where
  "lookup m a = find (\<lambda>e. entry_key e = address_key a) (registry m)"

text \<open>Modelled from the spec: storing an entry under its Address in the registry.\<close>

definition replace_entry :: "SockAddr \<Rightarrow> socket_entry \<Rightarrow> socket_entry list \<Rightarrow> socket_entry list" where
  "replace_entry a e' es = map (\<lambda>x. if entry_key x = address_key a then e' else x) es"

text \<open>Modelled from the spec: "the Manager finds or creates the Socket Entry, binds the OS
  socket on first creation, and appends the callback". \<open>Absent \<rightarrow> Bound\<close>: "first
  subscribe to an Address creates the OS socket, binds it, sets refcount=1";
  \<open>Bound \<rightarrow> Bound\<close>: "subsequent subscribes to the same Address increment refcount and
  append a listener; no new OS socket is created". Whether the OS accepts the bind is an
  input; a refused bind is "a failed subscribe, not a partial registration".\<close>

definition subscribe ::
  "SockAddr \<Rightarrow> bool \<Rightarrow> manager \<Rightarrow> (udp_error + listener_handle) \<times> manager" where
  "subscribe a os_accepts m =
     (case lookup m a of
        Some e \<Rightarrow>
          let h = next_listener m;
              e' = e\<lparr>listeners := listeners e @ [h], refcount := refcount e + 1\<rparr>
          in (Inr (a, h),
              m\<lparr>registry := replace_entry a e' (registry m), next_listener := h + 1\<rparr>)
      | None \<Rightarrow>
          if \<not> os_accepts then (Inl BindError, m)
          else
            let fd = next_descriptor m;
                h = next_listener m;
                e = \<lparr>local_address = a, descriptor = fd, listeners = [h], refcount = 1\<rparr>
            in (Inr (a, h),
                m\<lparr>registry := registry m @ [e],
                  os_sockets := os_sockets m @ [(fd, a)],
                  binds := binds m + 1,
                  next_descriptor := fd + 1,
                  next_listener := h + 1\<rparr>))"

text \<open>Modelled from the spec: \<^verbatim>\<open>unsubscribe\<close> "removes the callback, decrements refcount";
  \<open>Bound \<rightarrow> Closed\<close>: "last unsubscribe (refcount reaches 0) closes the OS socket and
  removes the registry entry". A handle whose callback is no longer registered is
  reported and changes nothing.\<close>

definition unsubscribe :: "listener_handle \<Rightarrow> manager \<Rightarrow> (udp_error + unit) \<times> manager" where
  "unsubscribe handle m =
     (case handle of (a, h) \<Rightarrow>
        (case lookup m a of
           None \<Rightarrow> (Inl ReleasedHandle, m)
         | Some e \<Rightarrow>
             if h \<notin> set (listeners e) then (Inl ReleasedHandle, m)
             else
               let e' = e\<lparr>listeners := remove1 h (listeners e), refcount := refcount e - 1\<rparr>
               in if refcount e' = 0
                  then (Inr (),
                        m\<lparr>registry := filter (\<lambda>x. entry_key x \<noteq> address_key a) (registry m),
                          os_sockets := filter (\<lambda>s. fst s \<noteq> descriptor e) (os_sockets m)\<rparr>)
                  else (Inr (), m\<lparr>registry := replace_entry a e' (registry m)\<rparr>)))"

text \<open>Modelled from the spec: \<^verbatim>\<open>cleanup\<close> "force-closes every Socket Entry still present in the
  registry regardless of refcount".\<close>

definition cleanup :: "manager \<Rightarrow> manager" where
  "cleanup m =
     m\<lparr>registry := [],
       os_sockets := filter (\<lambda>s. fst s \<notin> set (map descriptor (registry m))) (os_sockets m)\<rparr>"

text \<open>Modelled from the spec: the registry is mutated "only through subscribe/unsubscribe/cleanup
  operations", each under the manager's guard. A reachable state is the result of a
  sequence of these operations on the initial manager.\<close>

datatype event = Subscribe SockAddr bool | Unsubscribe listener_handle | Cleanup

fun step :: "event \<Rightarrow> manager \<Rightarrow> manager" where
  "step (Subscribe a os_accepts) m = snd (subscribe a os_accepts m)"
| "step (Unsubscribe handle) m = snd (unsubscribe handle m)"
| "step Cleanup m = cleanup m"

fun run :: "event list \<Rightarrow> manager \<Rightarrow> manager" where
  "run [] m = m"
| "run (ev # evs) m = run evs (step ev m)"

text \<open>What the sharing invariant speaks of: the entries of the registry whose Address equals
  a given one, the open OS sockets bound to that Address, and its reference count (0 when
  it has no entry).\<close>

definition entries_for :: "manager \<Rightarrow> SockAddr \<Rightarrow> socket_entry list" where
  "entries_for m a = filter (\<lambda>e. entry_key e = address_key a) (registry m)"

definition sockets_for :: "manager \<Rightarrow> SockAddr \<Rightarrow> (nat \<times> SockAddr) list" where
  "sockets_for m a = filter (\<lambda>s. address_key (snd s) = address_key a) (os_sockets m)"

definition refcount_of :: "manager \<Rightarrow> SockAddr \<Rightarrow> nat" where
  "refcount_of m a = (case lookup m a of None \<Rightarrow> 0 | Some e \<Rightarrow> refcount e)"

text \<open>The invariant of the reachable states: the Addresses and the descriptors of the registry
  are unique, every entry has a positive reference count and a descriptor the manager has
  handed out, and the open OS sockets are exactly those of the entries.\<close>

definition bound_socket :: "socket_entry \<Rightarrow> nat \<times> SockAddr" where
  "bound_socket e = (descriptor e, local_address e)"

definition manager_inv :: "manager \<Rightarrow> bool" where
  "manager_inv m \<longleftrightarrow>
     distinct (map entry_key (registry m)) \<and>
     distinct (map descriptor (registry m)) \<and>
     (\<forall>e \<in> set (registry m). descriptor e < next_descriptor m \<and> 0 < refcount e) \<and>
     os_sockets m = map bound_socket (registry m)"

section \<open>Byte-level lemmas\<close>

lemma bit_le_word:
  "bit (le_word bs :: 'a::len word) n \<longleftrightarrow>
     n < LENGTH('a) \<and> n div 8 < length bs \<and> bit (bs ! (n div 8)) (n mod 8)"
  using bit_horner_sum_uint_exp_iff [where 'a = 8, of bs n]
  by (simp add: le_word_def bit_word_of_int_iff del: horner_sum_simps)

lemma bit_le_bytes16: "n < 16 \<Longrightarrow> bit (le_bytes16 v ! (n div 8)) (n mod 8) = bit v n"
proof -
  assume n: "n < 16"
  have e: "8 * (n div 8) + n mod 8 = n" by simp
  have "n div 8 = 0 \<or> n div 8 = 1" using n by auto
  then show ?thesis using e
    by (elim disjE) (simp_all add: le_bytes16_def bit_simps div_eq_0_iff)
qed

lemma le_word_le_bytes16: "(le_word (le_bytes16 v) :: 16 word) = v"
proof (rule bit_word_eqI)
  fix n assume "n < LENGTH(16)"
  then have n: "n < 16" by simp
  then have "n div 8 < 2" by auto
  then show "bit (le_word (le_bytes16 v) :: 16 word) n = bit v n"
    using n bit_le_bytes16 [OF n, of v] by (simp add: bit_le_word) (simp add: le_bytes16_def)
qed

lemma bit_le_bytes32: "n < 32 \<Longrightarrow> bit (le_bytes32 v ! (n div 8)) (n mod 8) = bit v n"
proof -
  assume n: "n < 32"
  have e: "8 * (n div 8) + n mod 8 = n" by simp
  have "n div 8 = 0 \<or> n div 8 = 1 \<or> n div 8 = 2 \<or> n div 8 = 3" using n by auto
  then show ?thesis using e
    by (elim disjE) (simp_all add: le_bytes32_def bit_simps div_eq_0_iff)
qed

lemma le_word_le_bytes32: "(le_word (le_bytes32 v) :: 32 word) = v"
proof (rule bit_word_eqI)
  fix n assume "n < LENGTH(32)"
  then have n: "n < 32" by simp
  then have "n div 8 < 4" by auto
  then show "bit (le_word (le_bytes32 v) :: 32 word) n = bit v n"
    using n bit_le_bytes32 [OF n, of v] by (simp add: bit_le_word) (simp add: le_bytes32_def)
qed

lemma ntohs_htons: "ntohs (htons v) = v"
  unfolding htons_def ntohs_def
  by (rule bit_word_eqI) (auto simp add: bit_simps)

lemma length_le_bytes16 [simp]: "length (le_bytes16 v) = 2"
  by (simp add: le_bytes16_def)

lemma length_le_bytes32 [simp]: "length (le_bytes32 v) = 4"
  by (simp add: le_bytes32_def)

lemma length_write_bytes:
  "off + length bs \<le> length m \<Longrightarrow> length (write_bytes m off bs) = length m"
  by (simp add: write_bytes_def)

lemma read_write_same:
  "off + length bs \<le> length m \<Longrightarrow> n = length bs \<Longrightarrow>
   read_bytes (write_bytes m off bs) off n = bs"
  by (simp add: read_bytes_def write_bytes_def)

lemma read_write_before:
  "off' + n \<le> off \<Longrightarrow> off \<le> length m \<Longrightarrow>
   read_bytes (write_bytes m off bs) off' n = read_bytes m off' n"
  by (simp add: read_bytes_def write_bytes_def take_drop)

lemma read_write_after:
  "off + length bs \<le> off' \<Longrightarrow> off + length bs \<le> length m \<Longrightarrow>
   read_bytes (write_bytes m off bs) off' n = read_bytes m off' n"
  by (simp add: read_bytes_def write_bytes_def)

lemma sa_family_write:
  "2 \<le> off \<Longrightarrow> off \<le> length a \<Longrightarrow> sa_family (write_bytes a off bs) = sa_family a"
  by (simp add: sa_family_def read_write_before)

lemma length_memset [simp]: "length (memset c n) = n"
  by (simp add: memset_def)

lemma SockAddr_af_Inr:
  "af = AF_INET \<or> af = AF_INET6 \<or> af = AF_UNSPEC \<Longrightarrow>
   SockAddr_af af = Inr (write_bytes (memset 0 sizeof_store) 0 (le_bytes16 (word_of_int af)))"
  by (auto simp add: SockAddr_af_def Let_def)

lemma sa_family_tagged:
  "af = AF_INET \<or> af = AF_INET6 \<or> af = AF_UNSPEC \<Longrightarrow>
   sa_family (write_bytes (memset 0 sizeof_store) 0 (le_bytes16 (word_of_int af))) = af"
  by (auto simp add: sa_family_def read_write_same sizeof_store_def le_word_le_bytes16
      AF_INET_def AF_INET6_def AF_UNSPEC_def)

lemma length_tagged [simp]:
  "length (write_bytes (memset 0 sizeof_store) 0 (le_bytes16 w)) = sizeof_store"
  by (simp add: length_write_bytes sizeof_store_def)



lemma size_of_tagged:
  "af = AF_INET \<or> af = AF_INET6 \<or> af = AF_UNSPEC \<Longrightarrow>
   size_of (write_bytes (memset 0 sizeof_store) 0 (le_bytes16 (word_of_int af))) =
     (if af = AF_INET then sizeof_sockaddr_in
      else if af = AF_INET6 then sizeof_sockaddr_in6 else sizeof_store)"
  by (simp only: size_of_def sa_family_tagged)

lemma SockAddr_raw_eq:
  assumes "sa_family addr = AF_INET \<or> sa_family addr = AF_INET6 \<or> sa_family addr = AF_UNSPEC"
  shows "SockAddr_raw addr len =
     (if len < 0 \<or> len > int (if sa_family addr = AF_INET then sizeof_sockaddr_in
                               else if sa_family addr = AF_INET6 then sizeof_sockaddr_in6
                               else sizeof_store)
      then Inl TruncatedAddress
      else Inr (memcpy (write_bytes (memset 0 sizeof_store) 0
                          (le_bytes16 (word_of_int (sa_family addr)))) addr (nat len)))"
  unfolding SockAddr_raw_def
  by (simp only: SockAddr_af_Inr [OF assms] size_of_tagged [OF assms] sum.case)

section \<open>The size of the store\<close>

text \<open>Every address the class builds has a store of \<^verbatim>\<open>sizeof(store)\<close> bytes (for the raw
  constructor, when the memory behind the pointer holds the \<open>len\<close> bytes it is asked to
  copy), and \<^verbatim>\<open>setPort\<close> keeps it so.\<close>

lemma SockAddr_af_length: "SockAddr_af af = Inr a \<Longrightarrow> length a = sizeof_store"
  by (auto simp add: SockAddr_af_def Let_def split: if_splits)

lemma any_length: "any af p = Inr a \<Longrightarrow> length a = sizeof_store"
  by (auto simp add: any_def SockAddr_af_def Let_def length_write_bytes sizeof_store_def
      IN6ADDR_ANY_INIT_def split: if_splits)

lemma loopback_length: "loopback af p = Inr a \<Longrightarrow> length a = sizeof_store"
  by (auto simp add: loopback_def SockAddr_af_def Let_def length_write_bytes sizeof_store_def
      IN6ADDR_LOOPBACK_INIT_def split: if_splits)

lemma setPort_length: "length a = sizeof_store \<Longrightarrow> length (snd (setPort p a)) = sizeof_store"
  by (simp add: setPort_def length_write_bytes sizeof_store_def)

lemma size_of_le: "size_of a \<le> sizeof_store"
  by (simp add: size_of_def sizeof_sockaddr_in_def sizeof_sockaddr_in6_def sizeof_store_def)

lemma SockAddr_raw_length:
  assumes "SockAddr_raw addr len = Inr a" and "nat len \<le> length addr"
  shows "length a = sizeof_store"
proof -
  obtain this where t: "SockAddr_af (sa_family addr) = Inr this"
    using assms(1) by (auto simp add: SockAddr_raw_def split: sum.splits)
  have l: "length this = sizeof_store" by (rule SockAddr_af_length [OF t])
  have r: "len \<le> int (size_of this)" and a: "a = memcpy this addr (nat len)"
    using assms(1) by (auto simp add: SockAddr_raw_def t split: if_splits)
  have "nat len \<le> sizeof_store" using r size_of_le [of this] by simp
  then show ?thesis
    using assms(2) l by (simp add: a memcpy_def length_write_bytes)
qed

section \<open>Construction from a raw endpoint\<close>

text \<open>
  Claim C1, as amended. For a raw endpoint tagged IPv4, IPv6 or Unspecified, the
  constructor fails with \<open>TruncatedAddress\<close> exactly when the length is negative or
  greater than the size of the family (\<^verbatim>\<open>sizeof(sockaddr_in)\<close>, \<^verbatim>\<open>sizeof(sockaddr_in6)\<close>, or the
  whole store for Unspecified), and it fails in no other way. Every length from 0 up to
  that size is accepted, shorter ones too: the first \<open>len\<close> bytes are copied over the
  zeroed, tagged store.
\<close>

theorem raw_length_check:
  assumes "sa_family addr = AF_INET \<or> sa_family addr = AF_INET6 \<or> sa_family addr = AF_UNSPEC"
  shows "(SockAddr_raw addr len = Inl TruncatedAddress) =
           (len < 0 \<or> len > int (if sa_family addr = AF_INET then sizeof_sockaddr_in
                                   else if sa_family addr = AF_INET6 then sizeof_sockaddr_in6
                                   else sizeof_store))
       \<and> (isl (SockAddr_raw addr len) = (SockAddr_raw addr len = Inl TruncatedAddress))
       \<and> (\<not> isl (SockAddr_raw addr len) \<longrightarrow>
            SockAddr_raw addr len =
              Inr (memcpy (write_bytes (memset 0 sizeof_store) 0
                     (le_bytes16 (word_of_int (sa_family addr)))) addr (nat len)))"
  by (simp add: SockAddr_raw_eq [OF assms])

lemma sa_family_example: "sa_family example_sockaddr_in = AF_INET"
  by (simp add: sa_family_def example_sockaddr_in_def read_bytes_def le_word_def AF_INET_def)

text \<open>
  Claim C1 as stated fails on the code: an IPv4 endpoint with length 8, less than the 16
  bytes of \<^verbatim>\<open>sockaddr_in\<close>, is accepted. The guard of the constructor bounds the length
  from above only, which is what the \<^verbatim>\<open>memcpy\<close> behind it needs.
\<close>

theorem raw_short_length_counterexample:
  "sa_family example_sockaddr_in = AF_INET \<and> (8::int) < int sizeof_sockaddr_in \<and>
   SockAddr_raw example_sockaddr_in 8 =
     Inr ([2, 0, 0x13, 0xD4, 10, 0, 0, 5] @ replicate 20 0)"
proof -
  have f: "sa_family example_sockaddr_in = AF_INET" by (rule sa_family_example)
  have "SockAddr_raw example_sockaddr_in 8 =
     Inr ([2, 0, 0x13, 0xD4, 10, 0, 0, 5] @ replicate 20 0)"
    by (simp add: SockAddr_raw_eq f sizeof_sockaddr_in_def)
       (simp add: memcpy_def write_bytes_def memset_def sizeof_store_def le_bytes16_def
          example_sockaddr_in_def AF_INET_def numeral_eq_Suc)
  with f show ?thesis by (simp add: sizeof_sockaddr_in_def)
qed

theorem raw_length_check_witness:
  "(SockAddr_raw example_sockaddr_in 17 = Inl TruncatedAddress) \<and>
   (SockAddr_raw example_sockaddr_in 16 \<noteq> Inl TruncatedAddress) \<and>
   (SockAddr_raw example_sockaddr_in 0 \<noteq> Inl TruncatedAddress)"
proof -
  have f: "sa_family example_sockaddr_in = AF_INET \<or> sa_family example_sockaddr_in = AF_INET6
            \<or> sa_family example_sockaddr_in = AF_UNSPEC"
    by (simp add: sa_family_example)
  show ?thesis
    using raw_length_check [OF f, of 17] raw_length_check [OF f, of 16] raw_length_check [OF f, of 0]
    by (simp add: sa_family_example sizeof_sockaddr_in_def)
qed

text \<open>
  Claim C2. For a raw endpoint whose family is IPv4, IPv6 or Unspecified, the constructor
  fails with \<open>TruncatedAddress\<close> if the length is negative or exceeds the size
  \<^verbatim>\<open>size()\<close> gives for that family.
\<close>

theorem raw_length_out_of_range:
  assumes "sa_family addr = AF_INET \<or> sa_family addr = AF_INET6 \<or> sa_family addr = AF_UNSPEC"
      and "len < 0 \<or> len > int (if sa_family addr = AF_INET then sizeof_sockaddr_in
                                 else if sa_family addr = AF_INET6 then sizeof_sockaddr_in6
                                 else sizeof_store)"
  shows "SockAddr_raw addr len = Inl TruncatedAddress"
  using assms(2) by (simp only: SockAddr_raw_eq [OF assms(1)] if_True)

theorem raw_length_out_of_range_witness:
  "SockAddr_raw example_sockaddr_in (- 1) = Inl TruncatedAddress \<and>
   SockAddr_raw example_sockaddr_in 17 = Inl TruncatedAddress"
proof -
  have f: "sa_family example_sockaddr_in = AF_INET \<or> sa_family example_sockaddr_in = AF_INET6
            \<or> sa_family example_sockaddr_in = AF_UNSPEC"
    by (simp add: sa_family_example)
  have a: "(- 1 :: int) < 0 \<or> - 1 > int (if sa_family example_sockaddr_in = AF_INET then sizeof_sockaddr_in
                                 else if sa_family example_sockaddr_in = AF_INET6 then sizeof_sockaddr_in6
                                 else sizeof_store)" by simp
  have b: "(17 :: int) < 0 \<or> 17 > int (if sa_family example_sockaddr_in = AF_INET then sizeof_sockaddr_in
                                 else if sa_family example_sockaddr_in = AF_INET6 then sizeof_sockaddr_in6
                                 else sizeof_store)"
    by (simp add: sa_family_example sizeof_sockaddr_in_def)
  show ?thesis
    using raw_length_out_of_range [OF f a] raw_length_out_of_range [OF f b] by simp
qed

section \<open>Families, ports and the canonical addresses\<close>

text \<open>
  Claim C5. The constructor from a bare family fails, and then with
  \<open>InvalidAddressFamily\<close>, exactly for the families other than IPv4, IPv6 and
  Unspecified; \<^verbatim>\<open>any\<close> and \<^verbatim>\<open>loopback\<close> fail, and then with \<open>InvalidAddressFamily\<close>, exactly
  for the families other than IPv4 and IPv6, so for Unspecified too.
\<close>

theorem family_constructors:
  "(SockAddr_af af = Inl InvalidAddressFamily) = (af \<notin> {AF_INET, AF_INET6, AF_UNSPEC}) \<and>
   isl (SockAddr_af af) = (af \<notin> {AF_INET, AF_INET6, AF_UNSPEC}) \<and>
   (any af p = Inl InvalidAddressFamily) = (af \<notin> {AF_INET, AF_INET6}) \<and>
   isl (any af p) = (af \<notin> {AF_INET, AF_INET6}) \<and>
   (loopback af p = Inl InvalidAddressFamily) = (af \<notin> {AF_INET, AF_INET6}) \<and>
   isl (loopback af p) = (af \<notin> {AF_INET, AF_INET6})"
  by (auto simp add: SockAddr_af_def any_def loopback_def Let_def
      AF_INET_def AF_INET6_def AF_UNSPEC_def)

lemma port_setPort:
  assumes "sa_family a = AF_INET \<or> sa_family a = AF_INET6" and "4 \<le> length a"
  shows "setPort p a = (Inr (), write_bytes a 2 (le_bytes16 (htons p)))"
    and "sa_family (write_bytes a 2 (le_bytes16 (htons p))) = sa_family a"
    and "port (write_bytes a 2 (le_bytes16 (htons p))) = p"
    and "length (write_bytes a 2 (le_bytes16 (htons p))) = length a"
proof -
  show "setPort p a = (Inr (), write_bytes a 2 (le_bytes16 (htons p)))"
    using assms(1) by (auto simp add: setPort_def)
  show f: "sa_family (write_bytes a 2 (le_bytes16 (htons p))) = sa_family a"
    using assms(2) by (simp add: sa_family_write)
  have "read_bytes (write_bytes a 2 (le_bytes16 (htons p))) 2 2 = le_bytes16 (htons p)"
    using assms(2) by (simp add: read_write_same)
  then show "port (write_bytes a 2 (le_bytes16 (htons p))) = p"
    using assms(1) by (auto simp add: port_def f le_word_le_bytes16 ntohs_htons)
  show "length (write_bytes a 2 (le_bytes16 (htons p))) = length a"
    using assms(2) by (simp add: length_write_bytes)
qed

text \<open>
  Claim C6. On an address whose family is neither IPv4 nor IPv6, \<^verbatim>\<open>setPort\<close> fails with
  \<open>FamilyNotSet\<close> and leaves the address as it was. On an IPv4 or IPv6 address (a store
  of full size) it succeeds for every 16-bit port, and \<^verbatim>\<open>port\<close> then returns that port.
\<close>

theorem setPort_family_dispatch:
  "(sa_family a \<noteq> AF_INET \<and> sa_family a \<noteq> AF_INET6 \<longrightarrow> setPort p a = (Inl FamilyNotSet, a)) \<and>
   ((sa_family a = AF_INET \<or> sa_family a = AF_INET6) \<and> length a = sizeof_store \<longrightarrow>
      (\<exists>a'. setPort p a = (Inr (), a') \<and> port a' = p))"
proof (intro conjI impI)
  assume "sa_family a \<noteq> AF_INET \<and> sa_family a \<noteq> AF_INET6"
  then show "setPort p a = (Inl FamilyNotSet, a)" by (simp add: setPort_def)
next
  assume h: "(sa_family a = AF_INET \<or> sa_family a = AF_INET6) \<and> length a = sizeof_store"
  then have l: "4 \<le> length a" by (simp add: sizeof_store_def)
  from h have f: "sa_family a = AF_INET \<or> sa_family a = AF_INET6" by simp
  show "\<exists>a'. setPort p a = (Inr (), a') \<and> port a' = p"
    using port_setPort(1) [OF f l] port_setPort(3) [OF f l] by blast
qed

lemma sa_family_default: "sa_family SockAddr_default = AF_UNSPEC"
  unfolding SockAddr_default_def by (rule sa_family_tagged) simp

lemma length_default: "length SockAddr_default = sizeof_store"
  by (simp add: SockAddr_default_def)

lemma sa_family_example_in: "sa_family example_in = AF_INET"
  by (simp add: sa_family_def example_in_def read_bytes_def le_word_def AF_INET_def)

theorem setPort_family_dispatch_witness:
  "setPort 9000 SockAddr_default = (Inl FamilyNotSet, SockAddr_default) \<and>
   (\<exists>a'. setPort 9000 example_in = (Inr (), a') \<and> port a' = 9000)"
proof -
  have u: "sa_family SockAddr_default \<noteq> AF_INET \<and> sa_family SockAddr_default \<noteq> AF_INET6"
    by (simp add: sa_family_default AF_INET_def AF_INET6_def AF_UNSPEC_def)
  have i: "(sa_family example_in = AF_INET \<or> sa_family example_in = AF_INET6) \<and>
           length example_in = sizeof_store"
  proof -
    have "length example_in = sizeof_store" by (simp add: example_in_def sizeof_store_def)
    then show ?thesis by (simp add: sa_family_example_in)
  qed
  show ?thesis
    using setPort_family_dispatch [of SockAddr_default 9000]
      setPort_family_dispatch [of example_in 9000] u i by blast
qed

text \<open>
  Claim C10. On an address whose family is neither IPv4 nor IPv6, \<^verbatim>\<open>port\<close> returns 0; it
  does not fail.
\<close>

theorem port_other_family:
  "sa_family a \<noteq> AF_INET \<Longrightarrow> sa_family a \<noteq> AF_INET6 \<Longrightarrow> port a = 0"
  by (simp add: port_def)

theorem port_other_family_witness:
  "sa_family SockAddr_default = AF_UNSPEC \<and> port SockAddr_default = 0"
proof -
  have u: "sa_family SockAddr_default \<noteq> AF_INET" "sa_family SockAddr_default \<noteq> AF_INET6"
    by (simp_all add: sa_family_default AF_INET_def AF_INET6_def AF_UNSPEC_def)
  show ?thesis using port_other_family [OF u] by (simp add: sa_family_default)
qed


lemma any_in_family:
  assumes "af = AF_INET \<or> af = AF_INET6 \<or> af = AF_UNSPEC" and "4 \<le> off" and "off + length bs \<le> sizeof_store"
  shows "sa_family (write_bytes (write_bytes (write_bytes (memset 0 sizeof_store) 0 (le_bytes16 (word_of_int af))) off bs) 2 (le_bytes16 q)) = af"
proof -
  have "sa_family (write_bytes (write_bytes (write_bytes (memset 0 sizeof_store) 0 (le_bytes16 (word_of_int af))) off bs) 2 (le_bytes16 q))
      = sa_family (write_bytes (write_bytes (memset 0 sizeof_store) 0 (le_bytes16 (word_of_int af))) off bs)"
    using assms(2,3) by (intro sa_family_write) (simp_all add: length_write_bytes sizeof_store_def)
  also have "\<dots> = sa_family (write_bytes (memset 0 sizeof_store) 0 (le_bytes16 (word_of_int af)))"
    using assms(2,3) by (intro sa_family_write) (simp_all add: length_write_bytes sizeof_store_def)
  also have "\<dots> = af" by (rule sa_family_tagged [OF assms(1)])
  finally show ?thesis .
qed

lemma any_in_host:
  assumes "4 \<le> off" and "off + length bs \<le> sizeof_store" and "n = length bs"
  shows "read_bytes (write_bytes (write_bytes (write_bytes (memset 0 sizeof_store) 0 (le_bytes16 w)) off bs) 2 (le_bytes16 q)) off n = bs"
proof -
  have "read_bytes (write_bytes (write_bytes (write_bytes (memset 0 sizeof_store) 0 (le_bytes16 w)) off bs) 2 (le_bytes16 q)) off n
      = read_bytes (write_bytes (write_bytes (memset 0 sizeof_store) 0 (le_bytes16 w)) off bs) off n"
    using assms by (intro read_write_after) (simp_all add: length_write_bytes sizeof_store_def)
  also have "\<dots> = bs"
    using assms by (intro read_write_same) (simp_all add: length_write_bytes sizeof_store_def)
  finally show ?thesis .
qed

lemma any_eq:
  "any AF_INET p = Inr (write_bytes (write_bytes (write_bytes (memset 0 sizeof_store) 0
       (le_bytes16 (word_of_int AF_INET))) 4 (le_bytes32 (htonl INADDR_ANY))) 2 (le_bytes16 (htons (ucast p))))"
  "any AF_INET6 p = Inr (write_bytes (write_bytes (write_bytes (memset 0 sizeof_store) 0
       (le_bytes16 (word_of_int AF_INET6))) 8 IN6ADDR_ANY_INIT) 2 (le_bytes16 (htons (ucast p))))"
  by (simp_all add: any_def SockAddr_af_Inr) (simp add: AF_INET_def AF_INET6_def)

lemma loopback_eq:
  "loopback AF_INET p = Inr (write_bytes (write_bytes (write_bytes (memset 0 sizeof_store) 0
       (le_bytes16 (word_of_int AF_INET))) 4 (le_bytes32 (htonl INADDR_LOOPBACK))) 2 (le_bytes16 (htons (ucast p))))"
  "loopback AF_INET6 p = Inr (write_bytes (write_bytes (write_bytes (memset 0 sizeof_store) 0
       (le_bytes16 (word_of_int AF_INET6))) 8 IN6ADDR_LOOPBACK_INIT) 2 (le_bytes16 (htons (ucast p))))"
  by (simp_all add: loopback_def SockAddr_af_Inr) (simp add: AF_INET_def AF_INET6_def)

lemma AF_distinct:
  "AF_INET \<noteq> AF_INET6" "AF_INET6 \<noteq> AF_INET" "AF_INET \<noteq> AF_UNSPEC" "AF_UNSPEC \<noteq> AF_INET"
  "AF_INET6 \<noteq> AF_UNSPEC" "AF_UNSPEC \<noteq> AF_INET6"
  by (simp_all add: AF_INET_def AF_INET6_def AF_UNSPEC_def)

lemma isAny_any_in: "\<exists>a. any AF_INET p = Inr a \<and> isAny a"
proof -
  let ?a = "write_bytes (write_bytes (write_bytes (memset 0 sizeof_store) 0
       (le_bytes16 (word_of_int AF_INET))) 4 (le_bytes32 (htonl INADDR_ANY))) 2 (le_bytes16 (htons (ucast p)))"
  have f: "sa_family ?a = AF_INET"
    by (rule any_in_family) (simp_all add: sizeof_store_def)
  have h: "read_bytes ?a 4 4 = le_bytes32 (htonl INADDR_ANY)"
    by (rule any_in_host) (simp_all add: sizeof_store_def)
  have "isAny ?a"
    by (simp only: isAny_def f h le_word_le_bytes32 if_True simp_thms)
  then show ?thesis by (simp only: any_eq) blast
qed

lemma isAny_any_in6: "\<exists>a. any AF_INET6 p = Inr a \<and> isAny a"
proof -
  let ?a = "write_bytes (write_bytes (write_bytes (memset 0 sizeof_store) 0
       (le_bytes16 (word_of_int AF_INET6))) 8 IN6ADDR_ANY_INIT) 2 (le_bytes16 (htons (ucast p)))"
  have f: "sa_family ?a = AF_INET6"
    by (rule any_in_family) (simp_all add: sizeof_store_def IN6ADDR_ANY_INIT_def)
  have h: "read_bytes ?a 8 16 = IN6ADDR_ANY_INIT"
    by (rule any_in_host) (simp_all add: sizeof_store_def IN6ADDR_ANY_INIT_def)
  have "IN6_IS_ADDR_UNSPECIFIED IN6ADDR_ANY_INIT"
    by (simp add: IN6_IS_ADDR_UNSPECIFIED_def IN6ADDR_ANY_INIT_def)
  then have "isAny ?a"
    by (simp only: isAny_def f h AF_distinct if_True if_False simp_thms)
  then show ?thesis by (simp only: any_eq) blast
qed

lemma isLO_loopback_in: "\<exists>a. loopback AF_INET p = Inr a \<and> isLO a"
proof -
  let ?a = "write_bytes (write_bytes (write_bytes (memset 0 sizeof_store) 0
       (le_bytes16 (word_of_int AF_INET))) 4 (le_bytes32 (htonl INADDR_LOOPBACK))) 2 (le_bytes16 (htons (ucast p)))"
  have f: "sa_family ?a = AF_INET"
    by (rule any_in_family) (simp_all add: sizeof_store_def)
  have h: "read_bytes ?a 4 4 = le_bytes32 (htonl INADDR_LOOPBACK)"
    by (rule any_in_host) (simp_all add: sizeof_store_def)
  have "isLO ?a"
    by (simp only: isLO_def f h le_word_le_bytes32 if_True simp_thms)
  then show ?thesis by (simp only: loopback_eq) blast
qed

lemma isLO_loopback_in6: "\<exists>a. loopback AF_INET6 p = Inr a \<and> isLO a"
proof -
  let ?a = "write_bytes (write_bytes (write_bytes (memset 0 sizeof_store) 0
       (le_bytes16 (word_of_int AF_INET6))) 8 IN6ADDR_LOOPBACK_INIT) 2 (le_bytes16 (htons (ucast p)))"
  have f: "sa_family ?a = AF_INET6"
    by (rule any_in_family) (simp_all add: sizeof_store_def IN6ADDR_LOOPBACK_INIT_def)
  have h: "read_bytes ?a 8 16 = IN6ADDR_LOOPBACK_INIT"
    by (rule any_in_host) (simp_all add: sizeof_store_def IN6ADDR_LOOPBACK_INIT_def)
  have "IN6_IS_ADDR_LOOPBACK IN6ADDR_LOOPBACK_INIT"
    by (simp add: IN6_IS_ADDR_LOOPBACK_def IN6ADDR_LOOPBACK_INIT_def)
  then have "isLO ?a"
    by (simp only: isLO_def f h AF_distinct if_True if_False simp_thms)
  then show ?thesis by (simp only: loopback_eq) blast
qed

text \<open>
  Claim C7. For IPv4 and IPv6 and every port, \<^verbatim>\<open>any\<close> returns an address on which
  \<^verbatim>\<open>isAny\<close> holds and \<^verbatim>\<open>loopback\<close> returns one on which \<^verbatim>\<open>isLO\<close> holds. The port ranges over
  the \<^verbatim>\<open>unsigned\<close> parameter of the source, of which the 16-bit ports are a part (5076
  among them).
\<close>

theorem any_isAny_loopback_isLO:
  "(\<exists>a. any AF_INET p = Inr a \<and> isAny a) \<and>
   (\<exists>a. any AF_INET6 p = Inr a \<and> isAny a) \<and>
   (\<exists>a. loopback AF_INET p = Inr a \<and> isLO a) \<and>
   (\<exists>a. loopback AF_INET6 p = Inr a \<and> isLO a)"
  using isAny_any_in isAny_any_in6 isLO_loopback_in isLO_loopback_in6 by blast

lemma setAddress_parsed:
  assumes "parse name SockAddr_default (int sizeof_store) = (0, st)"
      and "length st = sizeof_store"
      and "sa_family st = AF_INET \<or> sa_family st = AF_INET6"
  shows "setAddress parse name dport this =
           (Inr (), if port st = 0 then write_bytes st 2 (le_bytes16 (htons dport)) else st)"
proof -
  have l: "4 \<le> length st" using assms(2) by (simp add: sizeof_store_def)
  show ?thesis
    by (simp add: setAddress_def Let_def assms(1) port_setPort(1) [OF assms(3) l])
qed

section \<open>Parsing into an address\<close>

text \<open>
  Claim C3. Whenever the parser accepts the string and writes an IPv4 or IPv6 endpoint,
  \<^verbatim>\<open>setAddress\<close> succeeds and the port of the address is the port the parser wrote, unless
  that is 0, the parser's way of reporting that the string has no port: then it is the
  default port. The witness runs the two examples of the spec, \<^verbatim>\<open>"10.0.0.5"\<close> and
  \<^verbatim>\<open>"10.0.0.5:9000"\<close> with default 5076.
\<close>

theorem setAddress_port:
  assumes "parse name SockAddr_default (int sizeof_store) = (0, st)"
      and "length st = sizeof_store"
      and "sa_family st = AF_INET \<or> sa_family st = AF_INET6"
  shows "\<exists>a'. setAddress parse name dport this = (Inr (), a') \<and>
              port a' = (if port st = 0 then dport else port st)"
proof -
  have l: "4 \<le> length st" using assms(2) by (simp add: sizeof_store_def)
  show ?thesis
    by (simp add: setAddress_parsed [of parse name st, OF assms] port_setPort(3) [OF assms(3) l])
qed

lemma example_parser_bare:
  "example_parser ''10.0.0.5'' SockAddr_default (int sizeof_store) =
     (0, [2, 0, 0, 0, 10, 0, 0, 5] @ replicate 20 0)"
  by (simp add: example_parser_def write_bytes_def memset_def sizeof_store_def numeral_eq_Suc)

lemma example_parser_port:
  "example_parser ''10.0.0.5:9000'' SockAddr_default (int sizeof_store) =
     (0, [2, 0, 0x23, 0x28, 10, 0, 0, 5] @ replicate 20 0)"
  by (simp add: example_parser_def write_bytes_def memset_def sizeof_store_def numeral_eq_Suc)

lemma port_example_bare: "port ([2, 0, 0, 0, 10, 0, 0, 5] @ replicate 20 0) = 0"
  by (simp add: port_def sa_family_def read_bytes_def le_word_def ntohs_def AF_INET_def AF_INET6_def)

lemma port_example_port: "port ([2, 0, 0x23, 0x28, 10, 0, 0, 5] @ replicate 20 0) = 9000"
  by (simp add: port_def sa_family_def read_bytes_def le_word_def ntohs_def AF_INET_def AF_INET6_def
      word_cat_eq' concat_bit_eq)

lemma family_example_bare: "sa_family ([2, 0, 0, 0, 10, 0, 0, 5] @ replicate 20 0) = AF_INET"
  by (simp add: sa_family_def read_bytes_def le_word_def AF_INET_def)

lemma family_example_port: "sa_family ([2, 0, 0x23, 0x28, 10, 0, 0, 5] @ replicate 20 0) = AF_INET"
  by (simp add: sa_family_def read_bytes_def le_word_def AF_INET_def)

theorem setAddress_port_witness:
  "(\<exists>a'. setAddress example_parser ''10.0.0.5'' 5076 SockAddr_default = (Inr (), a') \<and> port a' = 5076) \<and>
   (\<exists>a'. setAddress example_parser ''10.0.0.5:9000'' 5076 SockAddr_default = (Inr (), a') \<and> port a' = 9000)"
proof -
  have l1: "length ([2, 0, 0, 0, 10, 0, 0, 5] @ replicate 20 (0 :: byte)) = sizeof_store"
    by (simp add: sizeof_store_def)
  have l2: "length ([2, 0, 0x23, 0x28, 10, 0, 0, 5] @ replicate 20 (0 :: byte)) = sizeof_store"
    by (simp add: sizeof_store_def)
  have f1: "sa_family ([2, 0, 0, 0, 10, 0, 0, 5] @ replicate 20 0) = AF_INET \<or>
            sa_family ([2, 0, 0, 0, 10, 0, 0, 5] @ replicate 20 0) = AF_INET6"
    by (simp only: family_example_bare simp_thms)
  have f2: "sa_family ([2, 0, 0x23, 0x28, 10, 0, 0, 5] @ replicate 20 0) = AF_INET \<or>
            sa_family ([2, 0, 0x23, 0x28, 10, 0, 0, 5] @ replicate 20 0) = AF_INET6"
    by (simp only: family_example_port simp_thms)
  show ?thesis
    using setAddress_port [of example_parser "''10.0.0.5''" _ 5076 SockAddr_default, OF example_parser_bare l1 f1]
      setAddress_port [of example_parser "''10.0.0.5:9000''" _ 5076 SockAddr_default, OF example_parser_port l2 f2]
    by (simp only: port_example_bare port_example_port) simp
qed

text \<open>
  Claim C8. When the parser rejects the string, \<^verbatim>\<open>setAddress\<close> fails with
  \<open>AddressParseError\<close> and the address is what it was before the call.
\<close>

theorem setAddress_failure_atomic:
  assumes "fst (parse name SockAddr_default (int sizeof_store)) \<noteq> 0"
  shows "setAddress parse name dport this = (Inl AddressParseError, this)"
proof -
  obtain rc temp where p: "parse name SockAddr_default (int sizeof_store) = (rc, temp)"
    by (cases "parse name SockAddr_default (int sizeof_store)")
  with assms have "rc \<noteq> 0" by simp
  then show ?thesis by (simp add: setAddress_def Let_def p)
qed

theorem setAddress_failure_atomic_witness:
  "setAddress example_parser ''pv:name'' 5076 example_in = (Inl AddressParseError, example_in)"
proof -
  have "fst (example_parser ''pv:name'' SockAddr_default (int sizeof_store)) \<noteq> 0"
    by (simp add: example_parser_def)
  then show ?thesis by (rule setAddress_failure_atomic)
qed

section \<open>The sharing invariant of the UDP manager\<close>

lemma inv_init: "manager_inv manager_init"
  by (simp add: manager_inv_def manager_init_def)

lemma find_key:
  "find (\<lambda>e. entry_key e = k) es = Some e \<Longrightarrow> e \<in> set es \<and> entry_key e = k"
  by (induction es) (auto split: if_splits)

lemma find_key_None:
  "find (\<lambda>e. entry_key e = k) es = None \<Longrightarrow> k \<notin> entry_key ` set es"
  by (induction es) (auto split: if_splits)

lemma distinct_key_eq:
  "distinct (map f es) \<Longrightarrow> x \<in> set es \<Longrightarrow> y \<in> set es \<Longrightarrow> f x = f y \<Longrightarrow> x = y"
  by (meson distinct_map inj_onD)

lemma replace_entry_keys:
  "entry_key e' = address_key a \<Longrightarrow> map entry_key (replace_entry a e' es) = map entry_key es"
  by (induction es) (auto simp add: replace_entry_def)

lemma replace_entry_map:
  assumes "distinct (map entry_key es)" and "e \<in> set es" and "entry_key e = address_key a"
      and "g e' = g e"
  shows "map g (replace_entry a e' es) = map g es"
proof -
  have "x = e" if "x \<in> set es" and "entry_key x = address_key a" for x
    using distinct_key_eq [OF assms(1) that(1) assms(2)] that(2) assms(3) by simp
  then have "\<And>x. x \<in> set es \<Longrightarrow> g (if entry_key x = address_key a then e' else x) = g x"
    using assms(4) by auto
  then show ?thesis by (simp add: replace_entry_def)
qed

lemma set_replace_entry: "set (replace_entry a e' es) \<subseteq> insert e' (set es)"
  by (auto simp add: replace_entry_def)

lemma find_replace_entry:
  "find (\<lambda>e. entry_key e = address_key a) es = Some e \<Longrightarrow> entry_key e' = address_key a \<Longrightarrow>
   find (\<lambda>e. entry_key e = address_key a) (replace_entry a e' es) = Some e'"
  by (induction es) (auto simp add: replace_entry_def split: if_splits)

lemma inv_replace_entry:
  assumes "manager_inv m" and "e \<in> set (registry m)" and "entry_key e = address_key a"
      and "local_address e' = local_address e" and "descriptor e' = descriptor e"
      and "0 < refcount e'"
  shows "manager_inv (m\<lparr>registry := replace_entry a e' (registry m)\<rparr>)"
proof -
  have da: "distinct (map entry_key (registry m))"
    using assms(1) by (simp add: manager_inv_def)
  have ke: "entry_key e' = address_key a"
    using assms(3,4) by (simp add: entry_key_def)
  have k: "map entry_key (replace_entry a e' (registry m)) = map entry_key (registry m)"
    using ke by (rule replace_entry_keys)
  have f: "map descriptor (replace_entry a e' (registry m)) = map descriptor (registry m)"
    using da assms(2,3,5) by (rule replace_entry_map)
  have "bound_socket e' = bound_socket e"
    using assms(4,5) by (simp add: bound_socket_def)
  with da assms(2,3)
  have b: "map bound_socket (replace_entry a e' (registry m)) = map bound_socket (registry m)"
    by (rule replace_entry_map)
  have d: "descriptor e < next_descriptor m"
    using assms(1,2) by (simp add: manager_inv_def)
  have s: "\<forall>x \<in> set (replace_entry a e' (registry m)). descriptor x < next_descriptor m \<and> 0 < refcount x"
    using assms(1,5,6) d set_replace_entry [of a e' "registry m"]
    by (auto simp add: manager_inv_def)
  show ?thesis
    using assms(1) s by (simp add: manager_inv_def k f b)
qed

lemma inv_subscribe:
  assumes "manager_inv m"
  shows "manager_inv (snd (subscribe a os_accepts m))"
proof (cases "lookup m a")
  case None
  then have fresh: "address_key a \<notin> entry_key ` set (registry m)"
    by (simp add: lookup_def find_key_None)
  have d: "\<forall>e \<in> set (registry m). descriptor e < next_descriptor m"
    using assms by (simp add: manager_inv_def)
  then have "next_descriptor m \<notin> descriptor ` set (registry m)" by auto
  with assms fresh None show ?thesis
    by (auto simp add: subscribe_def manager_inv_def Let_def bound_socket_def less_Suc_eq
        entry_key_def)
next
  case (Some e)
  then have e: "e \<in> set (registry m)" "entry_key e = address_key a"
    using find_key [of "address_key a" "registry m" e] by (simp_all add: lookup_def)
  define e' where "e' = e\<lparr>listeners := listeners e @ [next_listener m], refcount := refcount e + 1\<rparr>"
  have e': "local_address e' = local_address e" "descriptor e' = descriptor e" "0 < refcount e'"
    by (simp_all add: e'_def)
  have r: "snd (subscribe a os_accepts m) =
             m\<lparr>registry := replace_entry a e' (registry m), next_listener := next_listener m + 1\<rparr>"
    by (simp add: subscribe_def Some Let_def e'_def)
  have "manager_inv (m\<lparr>registry := replace_entry a e' (registry m)\<rparr>)"
    using assms e e' by (rule inv_replace_entry)
  then show ?thesis by (simp add: r manager_inv_def)
qed

lemma filter_closed_socket:
  assumes "distinct (map entry_key es)" and "distinct (map descriptor es)"
      and "e \<in> set es"
  shows "filter (\<lambda>s. fst s \<noteq> descriptor e) (map bound_socket es) =
         map bound_socket (filter (\<lambda>x. entry_key x \<noteq> entry_key e) es)"
proof -
  have "\<And>x. x \<in> set es \<Longrightarrow> (descriptor x \<noteq> descriptor e) = (entry_key x \<noteq> entry_key e)"
    using distinct_key_eq [OF assms(1)] distinct_key_eq [OF assms(2)] assms(3) by metis
  then have "filter (\<lambda>x. descriptor x \<noteq> descriptor e) es =
             filter (\<lambda>x. entry_key x \<noteq> entry_key e) es"
    by (intro filter_cong) simp_all
  then show ?thesis by (simp add: filter_map comp_def bound_socket_def)
qed

lemma inv_unsubscribe:
  assumes "manager_inv m"
  shows "manager_inv (snd (unsubscribe handle m))"
proof (cases handle)
  case (Pair a h)
  show ?thesis
  proof (cases "lookup m a")
    case None
    with assms Pair show ?thesis by (simp add: unsubscribe_def)
  next
    case (Some e)
    then have e: "e \<in> set (registry m)" "entry_key e = address_key a"
      using find_key [of "address_key a" "registry m" e] by (simp_all add: lookup_def)
    have da: "distinct (map entry_key (registry m))"
      and dd: "distinct (map descriptor (registry m))"
      and os: "os_sockets m = map bound_socket (registry m)"
      using assms by (simp_all add: manager_inv_def)
    consider (stale) "h \<notin> set (listeners e)"
      | (last) "h \<in> set (listeners e)" "refcount e - 1 = 0"
      | (more) "h \<in> set (listeners e)" "refcount e - 1 \<noteq> 0"
      by blast
    then show ?thesis
    proof cases
      case stale
      with assms Pair Some show ?thesis by (simp add: unsubscribe_def)
    next
      case last
      have c: "filter (\<lambda>s. fst s \<noteq> descriptor e) (map bound_socket (registry m)) =
               map bound_socket (filter (\<lambda>x. entry_key x \<noteq> address_key a) (registry m))"
        using filter_closed_socket [OF da dd e(1)] by (simp add: e(2))
      have "manager_inv (m\<lparr>registry := filter (\<lambda>x. entry_key x \<noteq> address_key a) (registry m),
                          os_sockets := filter (\<lambda>s. fst s \<noteq> descriptor e) (os_sockets m)\<rparr>)"
        using assms by (simp add: manager_inv_def c distinct_map_filter)
      with Pair Some last show ?thesis by (simp add: unsubscribe_def Let_def)
    next
      case more
      define e' where "e' = e\<lparr>listeners := remove1 h (listeners e), refcount := refcount e - 1\<rparr>"
      have e': "local_address e' = local_address e" "descriptor e' = descriptor e" "0 < refcount e'"
        using more by (simp_all add: e'_def)
      have r: "snd (unsubscribe handle m) = m\<lparr>registry := replace_entry a e' (registry m)\<rparr>"
        using more by (simp add: unsubscribe_def Pair Some Let_def e'_def)
      show ?thesis
        unfolding r using assms e e' by (rule inv_replace_entry)
    qed
  qed
qed

lemma inv_cleanup: "manager_inv m \<Longrightarrow> manager_inv (cleanup m)"
  by (simp add: manager_inv_def cleanup_def bound_socket_def filter_map comp_def)

lemma inv_step: "manager_inv m \<Longrightarrow> manager_inv (step ev m)"
  by (cases ev) (simp_all add: inv_subscribe inv_unsubscribe inv_cleanup)

lemma inv_run: "manager_inv m \<Longrightarrow> manager_inv (run evs m)"
  by (induction evs arbitrary: m) (simp_all add: inv_step)

lemma distinct_key_filter:
  "distinct (map f es) \<Longrightarrow> length (filter (\<lambda>e. f e = k) es) \<le> 1"
  by (induction es) (auto simp add: filter_empty_conv image_iff)

lemma inv_entries_for: "manager_inv m \<Longrightarrow> length (entries_for m a) \<le> 1"
  using distinct_key_filter [of entry_key "registry m" "address_key a"]
  by (simp add: manager_inv_def entries_for_def)

lemma inv_sockets_for:
  "manager_inv m \<Longrightarrow> sockets_for m a = map bound_socket (entries_for m a)"
  by (simp add: manager_inv_def sockets_for_def entries_for_def filter_map comp_def
      bound_socket_def entry_key_def)

lemma inv_open_iff_refcount:
  assumes "manager_inv m"
  shows "(sockets_for m a \<noteq> []) = (0 < refcount_of m a)"
proof (cases "lookup m a")
  case None
  then have "address_key a \<notin> entry_key ` set (registry m)"
    by (simp add: lookup_def find_key_None)
  then have "entries_for m a = []"
    by (auto simp add: entries_for_def filter_empty_conv image_iff)
  with None assms show ?thesis by (simp add: inv_sockets_for refcount_of_def)
next
  case (Some e)
  then have e: "e \<in> set (registry m)" "entry_key e = address_key a"
    using find_key [of "address_key a" "registry m" e] by (simp_all add: lookup_def)
  then have "entries_for m a \<noteq> []"
    by (auto simp add: entries_for_def filter_empty_conv)
  moreover have "0 < refcount e" using assms e by (simp add: manager_inv_def)
  ultimately show ?thesis using Some assms by (simp add: inv_sockets_for refcount_of_def)
qed

lemma subscribe_bound:
  assumes "lookup m a = Some e"
  shows "fst (subscribe a os_accepts m) = Inr (a, next_listener m)"
    and "lookup (snd (subscribe a os_accepts m)) a =
           Some (e\<lparr>listeners := listeners e @ [next_listener m], refcount := refcount e + 1\<rparr>)"
    and "os_sockets (snd (subscribe a os_accepts m)) = os_sockets m"
    and "binds (snd (subscribe a os_accepts m)) = binds m"
proof -
  have e: "entry_key e = address_key a"
    using assms find_key [of "address_key a" "registry m" e] by (simp add: lookup_def)
  show "fst (subscribe a os_accepts m) = Inr (a, next_listener m)"
    by (simp add: subscribe_def assms Let_def)
  have "find (\<lambda>x. entry_key x = address_key a)
          (replace_entry a (e\<lparr>listeners := listeners e @ [next_listener m], refcount := refcount e + 1\<rparr>)
             (registry m)) =
        Some (e\<lparr>listeners := listeners e @ [next_listener m], refcount := refcount e + 1\<rparr>)"
    using assms e by (intro find_replace_entry) (simp_all add: lookup_def entry_key_def)
  then show "lookup (snd (subscribe a os_accepts m)) a =
           Some (e\<lparr>listeners := listeners e @ [next_listener m], refcount := refcount e + 1\<rparr>)"
    by (simp add: subscribe_def Let_def lookup_def assms [unfolded lookup_def])
  show "os_sockets (snd (subscribe a os_accepts m)) = os_sockets m"
    by (simp add: subscribe_def assms Let_def)
  show "binds (snd (subscribe a os_accepts m)) = binds m"
    by (simp add: subscribe_def assms Let_def)
qed

text \<open>Claim C4. In every state the manager reaches from its initial state by subscribes,
  unsubscribes and cleanups, an Address (family, host bytes and port) has at most one
  Socket Entry and at most one open OS socket, and an OS socket is open for it iff its
  reference count is greater than 0. A subscribe to an Address that has an entry succeeds,
  adds one to the reference count of that entry and appends the new listener, and leaves
  the open OS sockets and the number of binds as they were. The witness subscribes two
  stores that differ in their padding only: they share one entry, one socket and one bind.\<close>

theorem one_socket_per_address:
  "length (entries_for (run evs manager_init) a) \<le> 1 \<and>
   length (sockets_for (run evs manager_init) a) \<le> 1 \<and>
   (sockets_for (run evs manager_init) a \<noteq> []) = (0 < refcount_of (run evs manager_init) a) \<and>
   (\<forall>e. lookup (run evs manager_init) a = Some e \<longrightarrow>
      fst (subscribe a os_accepts (run evs manager_init)) = Inr (a, next_listener (run evs manager_init)) \<and>
      lookup (snd (subscribe a os_accepts (run evs manager_init))) a =
        Some (e\<lparr>listeners := listeners e @ [next_listener (run evs manager_init)],
                refcount := refcount e + 1\<rparr>) \<and>
      os_sockets (snd (subscribe a os_accepts (run evs manager_init))) = os_sockets (run evs manager_init) \<and>
      binds (snd (subscribe a os_accepts (run evs manager_init))) = binds (run evs manager_init))"
proof -
  have i: "manager_inv (run evs manager_init)" by (rule inv_run [OF inv_init])
  have 1: "length (entries_for (run evs manager_init) a) \<le> 1" by (rule inv_entries_for [OF i])
  have 2: "length (sockets_for (run evs manager_init) a) \<le> 1"
    using 1 by (simp add: inv_sockets_for [OF i])
  show ?thesis
    using 1 2 inv_open_iff_refcount [OF i, of a] by (simp add: subscribe_bound)
qed

lemma address_key_example_in: "address_key example_in = (2, [10, 0, 0, 5], 5076)"
  by (simp add: address_key_def host_bytes_def port_def sa_family_def read_bytes_def le_word_def
      ntohs_def word_cat_eq' concat_bit_eq example_in_def AF_INET_def AF_INET6_def)

lemma address_key_example_in_padded: "address_key example_in_padded = address_key example_in"
  unfolding address_key_example_in
  by (simp add: address_key_def host_bytes_def port_def sa_family_def read_bytes_def le_word_def
      ntohs_def word_cat_eq' concat_bit_eq example_in_padded_def AF_INET_def AF_INET6_def)

lemma example_in_padded_differs: "example_in_padded \<noteq> example_in"
proof
  assume "example_in_padded = example_in"
  then have "example_in_padded ! 8 = example_in ! 8" by simp
  then show False by (simp add: example_in_padded_def example_in_def nth_append)
qed

lemma run_first_subscribe:
  "run [Subscribe example_in True] manager_init =
     \<lparr>registry = [\<lparr>local_address = example_in, descriptor = 0, listeners = [0], refcount = 1\<rparr>],
      os_sockets = [(0, example_in)], binds = 1, next_descriptor = 1, next_listener = 1\<rparr>"
  by (simp add: subscribe_def lookup_def manager_init_def Let_def)

lemma example_in_padded_raw:
  "SockAddr_raw [2, 0, 0x13, 0xD4, 10, 0, 0, 5, 0xFF, 0xFF, 0, 0, 0, 0, 0, 0] 16 =
     Inr example_in_padded"
proof -
  have f: "sa_family [2, 0, 0x13, 0xD4, 10, 0, 0, 5, 0xFF, 0xFF, 0, 0, 0, 0, 0, 0] = AF_INET"
    by (simp add: sa_family_def read_bytes_def le_word_def AF_INET_def)
  show ?thesis
    by (simp add: SockAddr_raw_eq f sizeof_sockaddr_in_def)
       (simp add: memcpy_def write_bytes_def memset_def sizeof_store_def le_bytes16_def
          example_in_padded_def AF_INET_def numeral_eq_Suc)
qed

lemma run_both_subscribes:
  "run [Subscribe example_in True, Subscribe example_in_padded True] manager_init =
     \<lparr>registry = [\<lparr>local_address = example_in, descriptor = 0, listeners = [0, 1], refcount = 2\<rparr>],
      os_sockets = [(0, example_in)], binds = 1, next_descriptor = 1, next_listener = 2\<rparr>"
  by (simp add: subscribe_def lookup_def manager_init_def Let_def replace_entry_def entry_key_def
      address_key_example_in_padded)

theorem one_socket_per_address_witness:
  "example_in_padded \<noteq> example_in \<and>
   lookup (run [Subscribe example_in True] manager_init) example_in_padded =
     Some \<lparr>local_address = example_in, descriptor = 0, listeners = [0], refcount = 1\<rparr> \<and>
   fst (subscribe example_in_padded True (run [Subscribe example_in True] manager_init)) =
     Inr (example_in_padded, 1) \<and>
   lookup (snd (subscribe example_in_padded True (run [Subscribe example_in True] manager_init)))
       example_in_padded =
     Some \<lparr>local_address = example_in, descriptor = 0, listeners = [0, 1], refcount = 2\<rparr> \<and>
   os_sockets (snd (subscribe example_in_padded True (run [Subscribe example_in True] manager_init))) =
     [(0, example_in)] \<and>
   binds (snd (subscribe example_in_padded True (run [Subscribe example_in True] manager_init))) = 1 \<and>
   length (registry (run [Subscribe example_in True, Subscribe example_in_padded True] manager_init)) = 1 \<and>
   length (sockets_for (run [Subscribe example_in True, Subscribe example_in_padded True] manager_init)
             example_in_padded) = 1 \<and>
   refcount_of (run [Subscribe example_in True, Subscribe example_in_padded True] manager_init)
     example_in_padded = 2"
proof -
  have h: "lookup (run [Subscribe example_in True] manager_init) example_in_padded =
     Some \<lparr>local_address = example_in, descriptor = 0, listeners = [0], refcount = 1\<rparr>"
    by (simp only: run_first_subscribe)
       (simp add: lookup_def entry_key_def address_key_example_in_padded)
  have t: "length (registry (run [Subscribe example_in True, Subscribe example_in_padded True] manager_init)) = 1 \<and>
   length (sockets_for (run [Subscribe example_in True, Subscribe example_in_padded True] manager_init)
             example_in_padded) = 1 \<and>
   refcount_of (run [Subscribe example_in True, Subscribe example_in_padded True] manager_init)
     example_in_padded = 2"
    by (simp only: run_both_subscribes)
       (simp add: sockets_for_def refcount_of_def lookup_def entry_key_def address_key_example_in_padded)
  show ?thesis
    using h t example_in_padded_differs
      one_socket_per_address [of "[Subscribe example_in True]" example_in_padded True]
    by (simp only: run_first_subscribe) simp
qed

end
